theory Spec2Isabelle
  imports Complex_Main
begin

section \<open>Rational function analyzer\<close>

text \<open>
  The analyzer of \<^verbatim>\<open>rational_analyzer.py\<close> is a thin layer over a symbolic algebra
  library. Its methods are embedded here line by line. The calls into the library whose
  result is an algorithm's choice (parsing, solving, factoring, gcd, simplification,
  limits, the \<^verbatim>\<open>is_real\<close> assumption query, printing) are the fields of a record
  \<open>cas\<close>, each returning either a raised exception or a value, so that every
  \<^verbatim>\<open>try/except\<close> of the source is a branch of the model. The calls that are functions
  of a polynomial's coefficients (degree, leading coefficient, substitution) and the
  arithmetic of numbers are defined.

  Conventions of the embedding:
  \<^item> an expression in \<open>x\<close> is a polynomial with rational coefficients, given by its
    coefficient list, constant term first; trailing zeros do not change the polynomial;
  \<^item> a number returned by the solver is a complex number; the other numbers of the
    library are the type \<open>snum\<close>, which adds \<open>zoo\<close>, \<open>nan\<close>, \<open>oo\<close> and \<open>-oo\<close>;
  \<^item> a Python float is a real number, or one of \<open>inf\<close>, \<open>-inf\<close>, \<open>nan\<close>: conversion
    to float is exact, rounding is not modelled.
\<close>

subsection \<open>Exceptions\<close>

datatype exn = SympifyError string | TypeError string | NotImplementedError string

fun exn_str :: "exn \<Rightarrow> string" where
  "exn_str (SympifyError m) = m"
| "exn_str (TypeError m) = m"
| "exn_str (NotImplementedError m) = m"

definition bind_exn :: "exn + 'a \<Rightarrow> ('a \<Rightarrow> exn + 'b) \<Rightarrow> exn + 'b" where
  "bind_exn m f = (case m of Inl e \<Rightarrow> Inl e | Inr v \<Rightarrow> f v)"

subsection \<open>Polynomials and numbers\<close>

type_synonym poly = "rat list"

fun peval :: "poly \<Rightarrow> complex \<Rightarrow> complex" where
  "peval [] z = 0"
| "peval (c # cs) z = of_rat c + z * peval cs z"

definition strip :: "poly \<Rightarrow> poly" where
  "strip p = rev (dropWhile (\<lambda>c. c = 0) (rev p))"

text \<open>\<^verbatim>\<open>sp.degree\<close>: the degree of the zero polynomial is \<open>-oo\<close>.\<close>

datatype sdegree = NegativeInfinityDeg | Degree nat

definition sp_degree :: "poly \<Rightarrow> sdegree" where
  "sp_degree p = (case strip p of [] \<Rightarrow> NegativeInfinityDeg | c # cs \<Rightarrow> Degree (length cs))"

fun deg_less :: "sdegree \<Rightarrow> sdegree \<Rightarrow> bool" where
  "deg_less NegativeInfinityDeg NegativeInfinityDeg = False"
| "deg_less NegativeInfinityDeg (Degree n) = True"
| "deg_less (Degree m) NegativeInfinityDeg = False"
| "deg_less (Degree m) (Degree n) = (m < n)"

text \<open>\<^verbatim>\<open>sp.LC\<close>: the leading coefficient; that of the zero polynomial is 0.\<close>

definition sp_LC :: "poly \<Rightarrow> rat" where
  "sp_LC p = (case strip p of [] \<Rightarrow> 0 | c # cs \<Rightarrow> last (c # cs))"

datatype snum = Fin complex | ComplexInfinity | NaN | Infinity | NegativeInfinity

text \<open>The quotient of two finite numbers: \<open>a/0\<close> is \<open>zoo\<close> and \<open>0/0\<close> is \<open>nan\<close>.\<close>

definition sp_div :: "complex \<Rightarrow> complex \<Rightarrow> snum" where
  "sp_div a b = (if b = 0 then (if a = 0 then NaN else ComplexInfinity) else Fin (a / b))"

fun is_finite :: "snum \<Rightarrow> bool" where
  "is_finite (Fin z) = True"
| "is_finite ComplexInfinity = False"
| "is_finite NaN = False"
| "is_finite Infinity = False"
| "is_finite NegativeInfinity = False"

datatype pyfloat = Float real | FloatInf | FloatNegInf | FloatNaN

text \<open>\<^verbatim>\<open>float(e)\<close> of a number: a number that is not real, and \<open>zoo\<close>, raise TypeError.\<close>

fun py_float :: "snum \<Rightarrow> exn + pyfloat" where
  "py_float (Fin z) =
     (if Im z = 0 then Inr (Float (Re z)) else Inl (TypeError ''Cannot convert complex to float''))"
| "py_float ComplexInfinity = Inl (TypeError ''Cannot convert complex to float'')"
| "py_float NaN = Inr FloatNaN"
| "py_float Infinity = Inr FloatInf"
| "py_float NegativeInfinity = Inr FloatNegInf"

text \<open>\<^verbatim>\<open>float(root)\<close> of a root of the solver, which is a finite number.\<close>

definition float_root :: "complex \<Rightarrow> exn + real" where
  "float_root z =
     (if Im z = 0 then Inr (Re z) else Inl (TypeError ''Cannot convert complex to float''))"

text \<open>\<^verbatim>\<open>abs(hole[0] - x_val) < 1e-10\<close>\<close>

definition near :: "real \<Rightarrow> complex \<Rightarrow> bool" where
  "near h z = (cmod (complex_of_real h - z) < 1 / 10 ^ 10)"

text \<open>The same test without the square root, for evaluation.\<close>

lemma near_code [code]: "near h z \<longleftrightarrow> (h - Re z)\<^sup>2 + (Im z)\<^sup>2 < (1 / 10 ^ 10)\<^sup>2"
proof -
  have "cmod (complex_of_real h - z) < 1 / 10 ^ 10
        \<longleftrightarrow> (cmod (complex_of_real h - z))\<^sup>2 < (1 / 10 ^ 10)\<^sup>2"
  proof
    assume "cmod (complex_of_real h - z) < 1 / 10 ^ 10"
    then show "(cmod (complex_of_real h - z))\<^sup>2 < (1 / 10 ^ 10)\<^sup>2"
      by (intro power_strict_mono) simp_all
  next
    assume "(cmod (complex_of_real h - z))\<^sup>2 < (1 / 10 ^ 10)\<^sup>2"
    then show "cmod (complex_of_real h - z) < 1 / 10 ^ 10"
      by (rule power2_less_imp_less) simp
  qed
  then show ?thesis by (simp add: near_def cmod_power2)
qed

subsection \<open>The library\<close>

datatype direction = PlusInfinity | MinusInfinity

record cas =
  sp_sympify :: "string \<Rightarrow> exn + poly"
  sp_solve :: "poly \<Rightarrow> exn + complex list"
  sp_is_real :: "complex \<Rightarrow> bool"
  sp_factor :: "poly \<Rightarrow> exn + poly"
  sp_gcd :: "poly \<Rightarrow> poly \<Rightarrow> exn + poly"
  sp_simplify_quotient :: "poly \<Rightarrow> poly \<Rightarrow> exn + poly"
  sp_limit :: "poly \<times> poly \<Rightarrow> direction \<Rightarrow> exn + snum"
  sp_str :: "snum \<Rightarrow> string"

subsection \<open>The analyzer object and its constructor\<close>

text \<open>
  An attribute that \<^verbatim>\<open>__init__\<close> has not assigned is \<open>None\<close>: when the numerator
  does not parse nothing but \<open>valid\<close> and \<open>error_message\<close> is set, when the denominator
  does not parse the numerator is already stored. The quotient \<^verbatim>\<open>self.function\<close> (field \<open>func\<close>) is the
  pair of numerator and denominator; building it raises nothing.
\<close>

record analyzer =
  numerator :: "poly option"
  denominator :: "poly option"
  func :: "(poly \<times> poly) option"
  valid :: bool
  error_message :: "string option"

definition invalid :: "poly option \<Rightarrow> exn \<Rightarrow> analyzer" where
  "invalid n e = \<lparr>numerator = n, denominator = None, func = None, valid = False,
     error_message = Some (''Invalid function: '' @ exn_str e)\<rparr>"

definition RationalAnalyzer :: "cas \<Rightarrow> string \<Rightarrow> string \<Rightarrow> analyzer" where
  "RationalAnalyzer L numerator_str denominator_str =
     (case sp_sympify L numerator_str of
        Inl e \<Rightarrow> invalid None e
      | Inr n \<Rightarrow>
          (case sp_sympify L denominator_str of
             Inl e \<Rightarrow> invalid (Some n) e
           | Inr d \<Rightarrow> \<lparr>numerator = Some n, denominator = Some d, func = Some (n, d),
               valid = True, error_message = None\<rparr>))"

subsection \<open>Holes\<close>

fun holes_loop :: "cas \<Rightarrow> poly \<Rightarrow> poly \<Rightarrow> poly \<Rightarrow> complex list \<Rightarrow> exn + (real \<times> pyfloat) list" where
  "holes_loop L n d g [] = Inr []"
| "holes_loop L n d g (r # rs) =
     (if sp_is_real L r then
        bind_exn (sp_simplify_quotient L n g) (\<lambda>simplified_num.
        bind_exn (sp_simplify_quotient L d g) (\<lambda>simplified_den.
        bind_exn (py_float (sp_div (peval simplified_num r) (peval simplified_den r))) (\<lambda>y_val.
        bind_exn (float_root r) (\<lambda>x_val.
        bind_exn (holes_loop L n d g rs) (\<lambda>holes.
        Inr ((x_val, y_val) # holes))))))
      else holes_loop L n d g rs)"

definition try_holes :: "cas \<Rightarrow> poly \<Rightarrow> poly \<Rightarrow> exn + (real \<times> pyfloat) list" where
  "try_holes L n d =
     bind_exn (sp_factor L n) (\<lambda>num_factors.
     bind_exn (sp_factor L d) (\<lambda>den_factors.
     bind_exn (sp_gcd L n d) (\<lambda>common_factors.
       if common_factors = [1] then Inr []
       else bind_exn (sp_solve L common_factors) (\<lambda>common_roots.
            holes_loop L n d common_factors common_roots))))"

definition find_holes :: "cas \<Rightarrow> analyzer \<Rightarrow> (real \<times> pyfloat) list" where
  "find_holes L a =
     (if \<not> valid a then []
      else case (numerator a, denominator a) of
        (Some n, Some d) \<Rightarrow> (case try_holes L n d of Inl e \<Rightarrow> [] | Inr holes \<Rightarrow> holes)
      | _ \<Rightarrow> [])"

definition is_hole :: "cas \<Rightarrow> analyzer \<Rightarrow> complex \<Rightarrow> bool" where
  "is_hole L a x_val = list_ex (\<lambda>hole. near (fst hole) x_val) (find_holes L a)"

subsection \<open>Vertical asymptotes and x-intercepts\<close>

text \<open>
  The loops of \<^verbatim>\<open>find_vertical_asymptotes\<close> and \<^verbatim>\<open>find_x_intercepts\<close> have the
  same body: keep the float of every root that is real and is not a hole.
\<close>

fun roots_loop :: "cas \<Rightarrow> analyzer \<Rightarrow> complex list \<Rightarrow> exn + real list" where
  "roots_loop L a [] = Inr []"
| "roots_loop L a (r # rs) =
     (if sp_is_real L r then
        (if \<not> is_hole L a r then
           bind_exn (float_root r) (\<lambda>v.
           bind_exn (roots_loop L a rs) (\<lambda>vs. Inr (v # vs)))
         else roots_loop L a rs)
      else roots_loop L a rs)"

text \<open>The test of the loop body: the roots whose float the loop appends.\<close>

definition kept :: "cas \<Rightarrow> analyzer \<Rightarrow> complex \<Rightarrow> bool" where
  "kept L a r \<longleftrightarrow> sp_is_real L r \<and> \<not> is_hole L a r"

definition find_vertical_asymptotes :: "cas \<Rightarrow> analyzer \<Rightarrow> real list" where
  "find_vertical_asymptotes L a =
     (if \<not> valid a then []
      else case denominator a of
        None \<Rightarrow> []
      | Some d \<Rightarrow>
          (case bind_exn (sp_solve L d) (roots_loop L a) of
             Inl e \<Rightarrow> []
           | Inr asymptotes \<Rightarrow> sort asymptotes))"

definition find_x_intercepts :: "cas \<Rightarrow> analyzer \<Rightarrow> real list" where
  "find_x_intercepts L a =
     (if \<not> valid a then []
      else case numerator a of
        None \<Rightarrow> []
      | Some n \<Rightarrow>
          (case bind_exn (sp_solve L n) (roots_loop L a) of
             Inl e \<Rightarrow> []
           | Inr intercepts \<Rightarrow> sort intercepts))"

subsection \<open>Horizontal asymptote, y-intercept, end behaviour\<close>

datatype pynum = PyInt int | PyFloat pyfloat

definition find_horizontal_asymptote :: "cas \<Rightarrow> analyzer \<Rightarrow> pynum option" where
  "find_horizontal_asymptote L a =
     (if \<not> valid a then None
      else case (numerator a, denominator a) of
        (Some n, Some d) \<Rightarrow>
          (let num_degree = sp_degree n; den_degree = sp_degree d in
           if deg_less num_degree den_degree then Some (PyInt 0)
           else if num_degree = den_degree then
             (case py_float (sp_div (of_rat (sp_LC n)) (of_rat (sp_LC d))) of
                Inl e \<Rightarrow> None
              | Inr f \<Rightarrow> Some (PyFloat f))
           else None)
      | _ \<Rightarrow> None)"

definition find_y_intercept :: "cas \<Rightarrow> analyzer \<Rightarrow> pyfloat option" where
  "find_y_intercept L a =
     (if \<not> valid a then None
      else case (denominator a, func a) of
        (Some d, Some (fn, fd)) \<Rightarrow>
          (if peval d 0 \<noteq> 0 then
             (case py_float (sp_div (peval fn 0) (peval fd 0)) of
                Inl e \<Rightarrow> None
              | Inr f \<Rightarrow> Some f)
           else None)
      | _ \<Rightarrow> None)"

datatype endval = EndFloat pyfloat | EndStr string

definition convert_limit :: "cas \<Rightarrow> snum \<Rightarrow> endval" where
  "convert_limit L l =
     (if is_finite l then
        (case py_float l of Inl e \<Rightarrow> EndStr (sp_str L l) | Inr f \<Rightarrow> EndFloat f)
      else EndStr (sp_str L l))"

definition analyze_end_behavior :: "cas \<Rightarrow> analyzer \<Rightarrow> endval option \<times> endval option" where
  "analyze_end_behavior L a =
     (if \<not> valid a then (None, None)
      else case func a of
        None \<Rightarrow> (None, None)
      | Some f \<Rightarrow>
          (case sp_limit L f PlusInfinity of
             Inl e \<Rightarrow> (None, None)
           | Inr limit_pos_inf \<Rightarrow>
               (case sp_limit L f MinusInfinity of
                  Inl e \<Rightarrow> (None, None)
                | Inr limit_neg_inf \<Rightarrow>
                    (Some (convert_limit L limit_neg_inf), Some (convert_limit L limit_pos_inf)))))"

subsection \<open>The summary\<close>

datatype pyvalue =
    VError "string option"
  | VFloats "real list"
  | VNumber "pynum option"
  | VHoles "(real \<times> pyfloat) list"
  | VFloat "pyfloat option"
  | VEnd "endval option \<times> endval option"

definition get_analysis_summary :: "cas \<Rightarrow> analyzer \<Rightarrow> (string \<times> pyvalue) list" where
  "get_analysis_summary L a =
     (if \<not> valid a then [(''error'', VError (error_message a))]
      else
        [(''vertical_asymptotes'', VFloats (find_vertical_asymptotes L a)),
         (''horizontal_asymptote'', VNumber (find_horizontal_asymptote L a)),
         (''holes'', VHoles (find_holes L a)),
         (''x_intercepts'', VFloats (find_x_intercepts L a)),
         (''y_intercept'', VFloat (find_y_intercept L a)),
         (''end_behavior'', VEnd (analyze_end_behavior L a))])"

subsection \<open>Sequences of queries on one object\<close>





section \<open>A reference library for polynomials\<close>

text \<open>
  \<open>poly_cas\<close> is an executable instance of the library on the fragment the analyzer is
  meant for: expressions written with integer literals, \<open>x\<close>, \<open>+ - * / **\<close> and
  parentheses that denote a polynomial with rational coefficients. It is used to run the
  analyzer on concrete inputs. Outside that fragment it raises NotImplementedError
  where the real library would go on (an expression that is not a polynomial, a
  polynomial with a root that is not rational, a zero denominator in a limit).
\<close>

subsection \<open>Polynomial arithmetic\<close>

fun padd :: "poly \<Rightarrow> poly \<Rightarrow> poly" where
  "padd [] q = q"
| "padd (a # p) [] = a # p"
| "padd (a # p) (b # q) = (a + b) # padd p q"

definition psmult :: "rat \<Rightarrow> poly \<Rightarrow> poly" where
  "psmult c p = map (\<lambda>a. c * a) p"

definition psub :: "poly \<Rightarrow> poly \<Rightarrow> poly" where
  "psub p q = padd p (psmult (- 1) q)"

fun pmul :: "poly \<Rightarrow> poly \<Rightarrow> poly" where
  "pmul [] q = []"
| "pmul (a # p) q = padd (psmult a q) (0 # pmul p q)"

fun ppow :: "poly \<Rightarrow> nat \<Rightarrow> poly" where
  "ppow p 0 = [1]"
| "ppow p (Suc k) = pmul p (ppow p k)"

fun peval_rat :: "poly \<Rightarrow> rat \<Rightarrow> rat" where
  "peval_rat [] z = 0"
| "peval_rat (c # cs) z = c + z * peval_rat cs z"

text \<open>
  Long division on coefficient lists with the leading coefficient first: \<open>k\<close> quotient
  coefficients are produced, each step cancels the head of the remainder.
\<close>

definition cancel_head :: "rat list \<Rightarrow> rat list \<Rightarrow> rat list" where
  "cancel_head r s = tl (map2 (\<lambda>a b. a - b) r (s @ replicate (length r - length s) 0))"

fun divmod_be :: "rat list \<Rightarrow> nat \<Rightarrow> rat list \<Rightarrow> rat list \<Rightarrow> rat list \<times> rat list" where
  "divmod_be d 0 r q = (q, r)"
| "divmod_be d (Suc k) r q =
     (let c = hd r / hd d in divmod_be d k (cancel_head r (map (\<lambda>a. c * a) d)) (q @ [c]))"

definition pdivmod :: "poly \<Rightarrow> poly \<Rightarrow> poly \<times> poly" where
  "pdivmod a d =
     (let a' = rev (strip a); d' = rev (strip d) in
      case divmod_be d' (Suc (length a') - length d') a' [] of
        (q, r) \<Rightarrow> (strip (rev q), strip (rev r)))"

definition pmod :: "poly \<Rightarrow> poly \<Rightarrow> poly" where
  "pmod a d = snd (pdivmod a d)"

text \<open>Euclid's algorithm; the remainder is shorter than the divisor.\<close>

lemma length_strip_le: "length (strip p) \<le> length p"
  by (simp add: strip_def) (metis length_dropWhile_le length_rev)

lemma length_cancel_head: "length (cancel_head r s) = length r - 1"
  by (simp add: cancel_head_def)

lemma length_divmod_be: "length (snd (divmod_be d k r q)) = length r - k"
  by (induction k arbitrary: r q) (simp_all add: length_cancel_head Let_def)

lemma length_pmod: "strip d \<noteq> [] \<Longrightarrow> length (pmod a d) < length (strip d)"
proof -
  assume d: "strip d \<noteq> []"
  obtain q r where qr: "divmod_be (rev (strip d)) (Suc (length (rev (strip a))) - length (rev (strip d))) (rev (strip a)) [] = (q, r)"
    by (cases "divmod_be (rev (strip d)) (Suc (length (rev (strip a))) - length (rev (strip d))) (rev (strip a)) []")
  have "length r = length (rev (strip a)) - (Suc (length (rev (strip a))) - length (rev (strip d)))"
    using length_divmod_be [of "rev (strip d)" _ "rev (strip a)" "[]"] qr by (metis snd_conv)
  then have 1: "length r = length (strip a) - (Suc (length (strip a)) - length (strip d))"
    by simp
  have 2: "length (strip d) \<noteq> 0" using d by simp
  from 1 2 have "length r < length (strip d)" by arith
  moreover have "pmod a d = strip (rev r)"
    using qr by (simp add: pmod_def pdivmod_def Let_def)
  moreover have "length (strip (rev r)) \<le> length r"
    using length_strip_le [of "rev r"] by simp
  ultimately show ?thesis by simp
qed

function euclid :: "poly \<Rightarrow> poly \<Rightarrow> poly" where
  "euclid a b = (if strip b = [] then strip a else euclid b (pmod a b))"
  by pat_completeness auto
termination
proof (relation "measure (\<lambda>(a, b). length (strip b))")
  show "wf (measure (\<lambda>(a, b). length (strip b)))" by simp
next
  fix a b :: poly
  assume "strip b \<noteq> []"
  then have "length (pmod a b) < length (strip b)" by (rule length_pmod)
  moreover have "length (strip (pmod a b)) \<le> length (pmod a b)" by (rule length_strip_le)
  ultimately show "((b, pmod a b), (a, b)) \<in> measure (\<lambda>(a, b). length (strip b))" by simp
qed


subsection \<open>Greatest common divisor, exact quotient\<close>

text \<open>
  The gcd of two polynomials with integer coefficients is primitive times the gcd of
  the contents, with a positive leading coefficient; otherwise it is monic.
\<close>

definition monic :: "poly \<Rightarrow> poly" where
  "monic p = (if strip p = [] then [] else psmult (1 / sp_LC p) (strip p))"

definition is_int_poly :: "poly \<Rightarrow> bool" where
  "is_int_poly p = list_all (\<lambda>c. snd (quotient_of c) = 1) p"

definition content :: "poly \<Rightarrow> int" where
  "content p = foldr (\<lambda>c g. gcd (fst (quotient_of c)) g) p 0"

definition denom_lcm :: "poly \<Rightarrow> int" where
  "denom_lcm p = foldr (\<lambda>c l. lcm (snd (quotient_of c)) l) p 1"

definition poly_gcd :: "poly \<Rightarrow> poly \<Rightarrow> poly" where
  "poly_gcd a b =
     (let m = monic (euclid a b) in
      if is_int_poly a \<and> is_int_poly b
      then psmult (of_int (gcd (content a) (content b)) * of_int (denom_lcm m)) m
      else m)"

definition exact_quotient :: "poly \<Rightarrow> poly \<Rightarrow> exn + poly" where
  "exact_quotient a g =
     (if strip g = [] then Inl (NotImplementedError ''division by the zero polynomial'')
      else case pdivmod a g of
        (q, r) \<Rightarrow> if r = [] then Inr q else Inl (NotImplementedError ''not a polynomial''))"

subsection \<open>Roots and limits\<close>

text \<open>
  The solver finds the rational roots among the quotients of the divisors of the lowest
  and of the leading coefficient, and answers only when they account for the whole
  degree. Roots are listed once each, in ascending order.
\<close>

definition divisors :: "nat \<Rightarrow> nat list" where
  "divisors m = filter (\<lambda>k. m mod k = 0) [1..<Suc m]"

fun multiplicity :: "nat \<Rightarrow> rat \<Rightarrow> poly \<Rightarrow> nat" where
  "multiplicity 0 r p = 0"
| "multiplicity (Suc fuel) r p =
     (if strip p \<noteq> [] \<and> peval_rat p r = 0
      then Suc (multiplicity fuel r (fst (pdivmod p [- r, 1]))) else 0)"

definition candidates :: "poly \<Rightarrow> rat list" where
  "candidates p =
     (let q = dropWhile (\<lambda>c. c = 0) (strip p);
          ints = map (\<lambda>c. fst (quotient_of (c * of_int (denom_lcm q)))) q;
          a0 = nat \<bar>hd ints\<bar>; an = nat \<bar>last ints\<bar>
      in 0 # concat (map (\<lambda>u. concat (map (\<lambda>v. [of_nat u / of_nat v, - (of_nat u / of_nat v)])
                                         (divisors an))) (divisors a0)))"

definition rational_roots :: "poly \<Rightarrow> rat list" where
  "rational_roots p = sort (remdups (filter (\<lambda>r. peval_rat p r = 0) (candidates p)))"

definition solve_rational :: "poly \<Rightarrow> exn + complex list" where
  "solve_rational p =
     (case strip p of
        [] \<Rightarrow> Inr []
      | c # cs \<Rightarrow>
          (let rs = rational_roots (c # cs) in
           if sum_list (map (\<lambda>r. multiplicity (length (c # cs)) r (c # cs)) rs) = length cs
           then Inr (map (\<lambda>r. complex_of_real (of_rat r)) rs)
           else Inl (NotImplementedError ''roots outside the rationals'')))"

definition limit_rational :: "poly \<times> poly \<Rightarrow> direction \<Rightarrow> exn + snum" where
  "limit_rational f dir =
     (case f of (n, d) \<Rightarrow>
        (case (sp_degree n, sp_degree d) of
           (_, NegativeInfinityDeg) \<Rightarrow> Inl (NotImplementedError ''zero denominator'')
         | (NegativeInfinityDeg, Degree j) \<Rightarrow> Inr (Fin 0)
         | (Degree i, Degree j) \<Rightarrow>
             (let c = sp_LC n / sp_LC d in
              if i < j then Inr (Fin 0)
              else if i = j then Inr (Fin (of_rat c))
              else if (0 < c) = (dir = PlusInfinity \<or> even (i - j)) then Inr Infinity
              else Inr NegativeInfinity)))"

text \<open>
  The text of a finite number is asked for only after \<^verbatim>\<open>float\<close> has failed on
  it, which does not happen for the real values that \<open>limit_rational\<close> returns.
\<close>

fun str_symbol :: "snum \<Rightarrow> string" where
  "str_symbol Infinity = ''oo''"
| "str_symbol NegativeInfinity = ''-oo''"
| "str_symbol ComplexInfinity = ''zoo''"
| "str_symbol NaN = ''nan''"
| "str_symbol (Fin z) = []"


subsection \<open>Parsing\<close>

datatype token = TNum nat | TVar | TPlus | TMinus | TStar | TSlash | TPower | TLParen | TRParen

definition digit_val :: "char \<Rightarrow> nat option" where
  "digit_val c = map_of (zip ''0123456789'' [0..<10]) c"

definition symbol_token :: "char \<Rightarrow> token option" where
  "symbol_token c =
     map_of [(CHR ''x'', TVar), (CHR ''+'', TPlus), (CHR ''-'', TMinus), (CHR ''/'', TSlash),
             (CHR ''('', TLParen), (CHR '')'', TRParen)] c"

datatype lexstate = Idle | InNumber "nat list" | AfterStar

text \<open>A decimal literal with a leading zero is a syntax error unless it is all zeros.\<close>

definition flush :: "lexstate \<Rightarrow> exn + token list" where
  "flush st =
     (case st of
        Idle \<Rightarrow> Inr []
      | AfterStar \<Rightarrow> Inr [TStar]
      | InNumber ds \<Rightarrow>
          if 1 < length ds \<and> hd ds = 0 \<and> (\<exists>d \<in> set ds. d \<noteq> 0)
          then Inl (SympifyError ''leading zeros in decimal integer literals are not permitted'')
          else Inr [TNum (foldl (\<lambda>n d. 10 * n + d) 0 ds)])"

definition emit :: "lexstate \<Rightarrow> token list \<Rightarrow> exn + token list \<Rightarrow> exn + token list" where
  "emit st ts rest =
     bind_exn (flush st) (\<lambda>pending. bind_exn rest (\<lambda>more. Inr (pending @ ts @ more)))"

fun lexer :: "lexstate \<Rightarrow> string \<Rightarrow> exn + token list" where
  "lexer st [] = flush st"
| "lexer st (c # cs) =
     (case digit_val c of
        Some d \<Rightarrow>
          (case st of
             InNumber ds \<Rightarrow> lexer (InNumber (ds @ [d])) cs
           | _ \<Rightarrow> emit st [] (lexer (InNumber [d]) cs))
      | None \<Rightarrow>
          if c = CHR ''*'' then
            (case st of
               AfterStar \<Rightarrow> emit Idle [TPower] (lexer Idle cs)
             | _ \<Rightarrow> emit st [] (lexer AfterStar cs))
          else if c = CHR '' '' then emit st [] (lexer Idle cs)
          else (case symbol_token c of
                  Some t \<Rightarrow> emit st [t] (lexer Idle cs)
                | None \<Rightarrow> Inl (NotImplementedError ''character outside the polynomial fragment'')))"

datatype oper = Add | Sub | Mul | Div | Pow | Neg | Pos | Paren

fun prec :: "oper \<Rightarrow> nat" where
  "prec Paren = 0"
| "prec Add = 1"
| "prec Sub = 1"
| "prec Mul = 2"
| "prec Div = 2"
| "prec Neg = 3"
| "prec Pos = 3"
| "prec Pow = 4"

definition syntax_error :: "exn + 'a" where
  "syntax_error = Inl (SympifyError ''invalid syntax'')"

definition divide_const :: "poly \<Rightarrow> poly \<Rightarrow> exn + poly" where
  "divide_const a b =
     (case strip b of
        [c] \<Rightarrow> Inr (psmult (1 / c) a)
      | _ \<Rightarrow> Inl (NotImplementedError ''division by an expression that is not a nonzero constant''))"

definition power_const :: "poly \<Rightarrow> poly \<Rightarrow> exn + poly" where
  "power_const a b =
     (case strip b of
        [] \<Rightarrow> Inr [1]
      | [c] \<Rightarrow>
          if 0 \<le> c \<and> snd (quotient_of c) = 1 then Inr (ppow a (nat (fst (quotient_of c))))
          else Inl (NotImplementedError ''exponent that is not a natural number'')
      | _ \<Rightarrow> Inl (NotImplementedError ''exponent that is not a natural number''))"

fun apply_oper :: "oper \<Rightarrow> poly list \<Rightarrow> exn + poly list" where
  "apply_oper Add (b # a # vs) = Inr (strip (padd a b) # vs)"
| "apply_oper Sub (b # a # vs) = Inr (strip (psub a b) # vs)"
| "apply_oper Mul (b # a # vs) = Inr (strip (pmul a b) # vs)"
| "apply_oper Div (b # a # vs) = bind_exn (divide_const a b) (\<lambda>v. Inr (strip v # vs))"
| "apply_oper Pow (b # a # vs) = bind_exn (power_const a b) (\<lambda>v. Inr (strip v # vs))"
| "apply_oper Neg (a # vs) = Inr (psmult (- 1) a # vs)"
| "apply_oper Pos (a # vs) = Inr (a # vs)"
| "apply_oper _ _ = syntax_error"

text \<open>Apply the operators on top of the stack for as long as \<open>pop\<close> holds of them.\<close>

fun reduce :: "(oper \<Rightarrow> bool) \<Rightarrow> poly list \<Rightarrow> oper list \<Rightarrow> exn + poly list \<times> oper list" where
  "reduce pop vs [] = Inr (vs, [])"
| "reduce pop vs (o1 # os) =
     (if pop o1 then bind_exn (apply_oper o1 vs) (\<lambda>vs'. reduce pop vs' os)
      else Inr (vs, o1 # os))"

definition binds_tighter :: "oper \<Rightarrow> oper \<Rightarrow> bool" where
  "binds_tighter new o1 = (o1 \<noteq> Paren \<and> (prec new < prec o1 \<or> (prec new = prec o1 \<and> new \<noteq> Pow)))"

definition binary :: "token \<Rightarrow> oper option" where
  "binary t = (case t of TPlus \<Rightarrow> Some Add | TMinus \<Rightarrow> Some Sub | TStar \<Rightarrow> Some Mul
                 | TSlash \<Rightarrow> Some Div | TPower \<Rightarrow> Some Pow | _ \<Rightarrow> None)"

text \<open>
  Operator precedence parsing with a stack of values and a stack of pending operators;
  \<open>operand\<close> says whether an operand is expected next.
\<close>

fun parse_loop :: "bool \<Rightarrow> poly list \<Rightarrow> oper list \<Rightarrow> token list \<Rightarrow> exn + poly" where
  "parse_loop operand vs os [] =
     (if operand then syntax_error
      else bind_exn (reduce (\<lambda>o1. o1 \<noteq> Paren) vs os) (\<lambda>(vs', os').
        case (vs', os') of ([v], []) \<Rightarrow> Inr v | _ \<Rightarrow> syntax_error))"
| "parse_loop operand vs os (t # ts) =
     (if operand then
        (case t of
           TNum k \<Rightarrow> parse_loop False (strip [of_nat k] # vs) os ts
         | TVar \<Rightarrow> parse_loop False ([0, 1] # vs) os ts
         | TMinus \<Rightarrow> parse_loop True vs (Neg # os) ts
         | TPlus \<Rightarrow> parse_loop True vs (Pos # os) ts
         | TLParen \<Rightarrow> parse_loop True vs (Paren # os) ts
         | _ \<Rightarrow> syntax_error)
      else
        (case binary t of
           Some new \<Rightarrow>
             bind_exn (reduce (binds_tighter new) vs os) (\<lambda>(vs', os').
               parse_loop True vs' (new # os') ts)
         | None \<Rightarrow>
             if t = TRParen then
               bind_exn (reduce (\<lambda>o1. o1 \<noteq> Paren) vs os) (\<lambda>(vs', os').
                 case os' of Paren # os'' \<Rightarrow> parse_loop False vs' os'' ts | _ \<Rightarrow> syntax_error)
             else syntax_error))"

definition sympify_poly :: "string \<Rightarrow> exn + poly" where
  "sympify_poly s = bind_exn (lexer Idle s) (parse_loop True [] [])"

definition poly_cas :: cas where
  "poly_cas = \<lparr>sp_sympify = sympify_poly, sp_solve = solve_rational,
     sp_is_real = (\<lambda>z. Im z = 0), sp_factor = (\<lambda>p. Inr p),
     sp_gcd = (\<lambda>a b. Inr (poly_gcd a b)), sp_simplify_quotient = exact_quotient,
     sp_limit = limit_rational, sp_str = str_symbol\<rparr>"


section \<open>Properties\<close>

subsection \<open>Queries leave the object unchanged\<close>




subsection \<open>Construction and invalid input\<close>

lemma RationalAnalyzer_valid:
  "sp_sympify L ns = Inr n \<Longrightarrow> sp_sympify L ds = Inr d \<Longrightarrow>
   RationalAnalyzer L ns ds = \<lparr>numerator = Some n, denominator = Some d, func = Some (n, d),
     valid = True, error_message = None\<rparr>"
  by (simp add: RationalAnalyzer_def)

lemma RationalAnalyzer_invalid:
  "isl (sp_sympify L ns) \<or> isl (sp_sympify L ds) \<Longrightarrow>
   \<not> valid (RationalAnalyzer L ns ds) \<and>
   (\<exists>m. error_message (RationalAnalyzer L ns ds) = Some (''Invalid function: '' @ m))"
  by (auto simp: RationalAnalyzer_def invalid_def isl_def split: sum.splits)

text \<open>
  C6. When either string fails to parse, the object is marked invalid, every query
  returns its empty or absent form, and the summary is the single field \<open>error\<close>
  holding the recorded message. No query can raise: each is a total function whose
  result type has no exception.
\<close>

theorem invalid_input_queries:
  assumes "isl (sp_sympify L ns) \<or> isl (sp_sympify L ds)"
  shows "\<not> valid (RationalAnalyzer L ns ds)
    \<and> find_vertical_asymptotes L (RationalAnalyzer L ns ds) = []
    \<and> find_horizontal_asymptote L (RationalAnalyzer L ns ds) = None
    \<and> find_holes L (RationalAnalyzer L ns ds) = []
    \<and> find_x_intercepts L (RationalAnalyzer L ns ds) = []
    \<and> find_y_intercept L (RationalAnalyzer L ns ds) = None
    \<and> analyze_end_behavior L (RationalAnalyzer L ns ds) = (None, None)
    \<and> (\<exists>m. get_analysis_summary L (RationalAnalyzer L ns ds)
             = [(''error'', VError (Some (''Invalid function: '' @ m)))])"
proof -
  from assms have inv: "\<not> valid (RationalAnalyzer L ns ds)"
    and msg: "\<exists>m. error_message (RationalAnalyzer L ns ds) = Some (''Invalid function: '' @ m)"
    using RationalAnalyzer_invalid by blast+
  from inv msg show ?thesis
    by (auto simp: find_vertical_asymptotes_def find_horizontal_asymptote_def find_holes_def
        find_x_intercepts_def find_y_intercept_def analyze_end_behavior_def
        get_analysis_summary_def)
qed

lemma sympify_x_plus: "sp_sympify poly_cas ''x+'' = Inl (SympifyError ''invalid syntax'')"
  by code_simp

lemma sympify_empty: "sp_sympify poly_cas [] = Inl (SympifyError ''invalid syntax'')"
  by code_simp

theorem invalid_input_queries_witness:
  "(isl (sp_sympify poly_cas ''x+'') \<or> isl (sp_sympify poly_cas []))
   \<and> \<not> valid (RationalAnalyzer poly_cas ''x+'' [])
   \<and> find_holes poly_cas (RationalAnalyzer poly_cas ''x+'' []) = []
   \<and> map fst (get_analysis_summary poly_cas (RationalAnalyzer poly_cas ''x+'' [])) = [''error'']"
  using invalid_input_queries [of poly_cas "''x+''" "[]"] sympify_x_plus
  by auto

subsection \<open>End behaviour\<close>

text \<open>
  C4. On a valid object, for any library: when the limit at either end raises, the result
  is the pair \<open>(None, None)\<close>; when neither raises, both components are answers, also
  where the conversion to float fails, which falls back to the printed limit. So one
  component is \<open>None\<close> exactly when the other is.
\<close>

theorem end_behavior_all_or_nothing:
  assumes "valid a" and "func a = Some f"
  shows "(isl (sp_limit L f PlusInfinity) \<or> isl (sp_limit L f MinusInfinity)
            \<longrightarrow> analyze_end_behavior L a = (None, None))
    \<and> (\<not> isl (sp_limit L f PlusInfinity) \<and> \<not> isl (sp_limit L f MinusInfinity)
            \<longrightarrow> (\<exists>u v. analyze_end_behavior L a = (Some u, Some v)))
    \<and> (fst (analyze_end_behavior L a) = None \<longleftrightarrow> snd (analyze_end_behavior L a) = None)"
  using assms
  by (cases "sp_limit L f PlusInfinity"; cases "sp_limit L f MinusInfinity")
     (simp_all add: analyze_end_behavior_def)

lemma analyzer_x1_x2:
  "RationalAnalyzer poly_cas ''x+1'' ''x-2'' =
   \<lparr>numerator = Some [1, 1], denominator = Some [- 2, 1], func = Some ([1, 1], [- 2, 1]),
    valid = True, error_message = None\<rparr>"
  by code_simp

lemma limit_x1_x2: "limit_rational ([1, 1], [- 2, 1]) PlusInfinity = Inr (Fin 1)"
  by code_simp

theorem end_behavior_all_or_nothing_witness:
  "valid (RationalAnalyzer poly_cas ''x+1'' ''x-2'')
   \<and> func (RationalAnalyzer poly_cas ''x+1'' ''x-2'') = Some ([1, 1], [- 2, 1])
   \<and> \<not> isl (sp_limit (poly_cas\<lparr>sp_limit := \<lambda>f dir. if dir = MinusInfinity
          then Inl (NotImplementedError ''limit'') else limit_rational f dir\<rparr>) ([1, 1], [- 2, 1]) PlusInfinity)
   \<and> isl (sp_limit (poly_cas\<lparr>sp_limit := \<lambda>f dir. if dir = MinusInfinity
          then Inl (NotImplementedError ''limit'') else limit_rational f dir\<rparr>) ([1, 1], [- 2, 1]) MinusInfinity)
   \<and> analyze_end_behavior (poly_cas\<lparr>sp_limit := \<lambda>f dir. if dir = MinusInfinity
          then Inl (NotImplementedError ''limit'') else limit_rational f dir\<rparr>)
        (RationalAnalyzer poly_cas ''x+1'' ''x-2'') = (None, None)"
  using end_behavior_all_or_nothing [of "RationalAnalyzer poly_cas ''x+1'' ''x-2''" "([1, 1], [- 2, 1])"
      "poly_cas\<lparr>sp_limit := \<lambda>f dir. if dir = MinusInfinity
          then Inl (NotImplementedError ''limit'') else limit_rational f dir\<rparr>"]
  by (simp add: analyzer_x1_x2 limit_x1_x2)

subsection \<open>What the constructor guarantees\<close>









subsection \<open>Polynomial facts\<close>

lemma of_rat_complex: "(of_rat r :: complex) = complex_of_real (real_of_rat r)"
proof (cases r)
  case (Fract a b)
  then show ?thesis by (simp add: of_rat_rat)
qed

lemma Im_of_rat [simp]: "Im (of_rat r) = 0"
  by (simp add: of_rat_complex)

lemma Re_of_rat [simp]: "Re (of_rat r) = real_of_rat r"
  by (simp add: of_rat_complex)








lemma deg_trichotomy: "deg_less x y \<or> x = y \<or> deg_less y x"
  by (cases x; cases y) auto

subsection \<open>Horizontal asymptote\<close>








subsection \<open>The y-intercept\<close>


lemma peval_witness: "peval [- 2, 1] 0 = - 2" "peval [0, 1] 0 = 0"
  by simp_all




subsection \<open>Two worked inputs\<close>

text \<open>
  C7. With the reference library, numerator \<^verbatim>\<open>x**2-1\<close> and denominator \<^verbatim>\<open>x-1\<close>
  give the hole \<open>(1.0, 2.0)\<close>, no vertical asymptote, the x-intercept \<open>-1.0\<close> (the
  root 1 is left out as a hole) and the y-intercept \<open>1.0\<close>.
\<close>

theorem scenario_x2m1_over_xm1:
  "map_of (get_analysis_summary poly_cas (RationalAnalyzer poly_cas ''x**2-1'' ''x-1'')) ''holes''
     = Some (VHoles [(1, Float 2)])
   \<and> map_of (get_analysis_summary poly_cas (RationalAnalyzer poly_cas ''x**2-1'' ''x-1''))
       ''vertical_asymptotes'' = Some (VFloats [])
   \<and> map_of (get_analysis_summary poly_cas (RationalAnalyzer poly_cas ''x**2-1'' ''x-1''))
       ''x_intercepts'' = Some (VFloats [- 1])
   \<and> map_of (get_analysis_summary poly_cas (RationalAnalyzer poly_cas ''x**2-1'' ''x-1''))
       ''y_intercept'' = Some (VFloat (Some (Float 1)))"
  by code_simp

text \<open>
  C8. With the reference library, numerator \<^verbatim>\<open>x+1\<close> and denominator \<^verbatim>\<open>x-2\<close>
  give the summary below: vertical asymptote \<open>2.0\<close>, horizontal asymptote \<open>1.0\<close>, no
  hole, x-intercept \<open>-1.0\<close>, y-intercept \<open>-0.5\<close>, end behaviour \<open>(1.0, 1.0)\<close>.
\<close>

theorem scenario_xp1_over_xm2:
  "get_analysis_summary poly_cas (RationalAnalyzer poly_cas ''x+1'' ''x-2'') =
     [(''vertical_asymptotes'', VFloats [2]),
      (''horizontal_asymptote'', VNumber (Some (PyFloat (Float 1)))),
      (''holes'', VHoles []),
      (''x_intercepts'', VFloats [- 1]),
      (''y_intercept'', VFloat (Some (Float (- 1 / 2)))),
      (''end_behavior'', VEnd (Some (EndFloat (Float 1)), Some (EndFloat (Float 1))))]"
  by code_simp

subsection \<open>The loops over roots\<close>

lemma bind_exn_simps [simp]:
  "bind_exn (Inl e) f = Inl e" "bind_exn (Inr v) f = f v"
  by (simp_all add: bind_exn_def)

lemma bind_exn_Inr: "bind_exn m f = Inr w \<longleftrightarrow> (\<exists>v. m = Inr v \<and> f v = Inr w)"
  by (cases m) simp_all

lemma float_root_Inr: "float_root r = Inr x \<longleftrightarrow> Im r = 0 \<and> x = Re r"
  by (auto simp: float_root_def)

lemma real_complex: "Im r = 0 \<Longrightarrow> r = complex_of_real (Re r)"
  by (simp add: complex_eq_iff)

lemma near_real: "Im z = 0 \<Longrightarrow> near h z \<longleftrightarrow> \<bar>h - Re z\<bar> < 1 / 10 ^ 10"
  by (simp add: near_def cmod_def)

lemma near_self: "near x (complex_of_real x)"
  by (simp add: near_def)

lemma holes_loop_roots:
  "holes_loop L n d g rs = Inr hs \<Longrightarrow> (x, y) \<in> set hs \<Longrightarrow>
   \<exists>r \<in> set rs. sp_is_real L r \<and> Im r = 0 \<and> x = Re r"
proof (induction rs arbitrary: hs)
  case Nil
  then show ?case by simp
next
  case (Cons r rs)
  show ?case
  proof (cases "sp_is_real L r")
    case False
    with Cons show ?thesis by auto
  next
    case True
    with Cons.prems(1) obtain sn sd yv xv hs' where
      "float_root r = Inr xv" and rest: "holes_loop L n d g rs = Inr hs'"
      and hs: "hs = (xv, yv) # hs'"
      by (auto simp: bind_exn_Inr)
    then have xv: "Im r = 0" "xv = Re r" by (simp_all add: float_root_Inr)
    from Cons.prems(2) hs have "(x, y) = (xv, yv) \<or> (x, y) \<in> set hs'" by simp
    then show ?thesis
    proof
      assume "(x, y) = (xv, yv)"
      with xv True show ?thesis by simp
    next
      assume "(x, y) \<in> set hs'"
      with Cons.IH [OF rest] show ?thesis by auto
    qed
  qed
qed

lemma roots_loop_Inr:
  "roots_loop L a rs = Inr vs \<Longrightarrow>
   vs = map Re (filter (kept L a) rs) \<and> (\<forall>r \<in> set rs. kept L a r \<longrightarrow> Im r = 0)"
proof (induction rs arbitrary: vs)
  case Nil
  then show ?case by simp
next
  case (Cons r rs)
  show ?case
  proof (cases "kept L a r")
    case False
    with Cons.prems have "roots_loop L a rs = Inr vs"
      by (auto simp: kept_def split: if_splits)
    with Cons.IH False show ?thesis by simp
  next
    case True
    with Cons.prems obtain v vs' where "float_root r = Inr v"
      and rest: "roots_loop L a rs = Inr vs'" and vs: "vs = v # vs'"
      by (auto simp: kept_def bind_exn_Inr)
    then have "Im r = 0" "v = Re r" by (simp_all add: float_root_Inr)
    with Cons.IH [OF rest] True vs show ?thesis by simp
  qed
qed

lemma roots_loop_total:
  "\<forall>r \<in> set rs. kept L a r \<longrightarrow> Im r = 0 \<Longrightarrow>
   roots_loop L a rs = Inr (map Re (filter (kept L a) rs))"
  by (induction rs) (auto simp: kept_def float_root_def)

lemma try_holes_Inr:
  "try_holes L n d = Inr hs \<Longrightarrow>
   hs = [] \<or> (\<exists>g rs. sp_gcd L n d = Inr g \<and> sp_solve L g = Inr rs \<and> holes_loop L n d g rs = Inr hs)"
  by (auto simp: try_holes_def bind_exn_Inr split: if_splits)

lemma find_holes_cases:
  "valid a \<Longrightarrow> numerator a = Some n \<Longrightarrow> denominator a = Some d \<Longrightarrow>
   find_holes L a = [] \<or> try_holes L n d = Inr (find_holes L a)"
  by (auto simp: find_holes_def split: sum.splits)

lemma is_hole_iff: "is_hole L a r \<longleftrightarrow> (\<exists>h \<in> set (find_holes L a). near (fst h) r)"
  by (simp add: is_hole_def list_ex_iff)

lemma kept_roots_not_hole:
  assumes "roots_loop L a rs = Inr vs" and "(x, y) \<in> set (find_holes L a)"
  shows "x \<notin> set vs"
proof
  assume "x \<in> set vs"
  with roots_loop_Inr [OF assms(1)] obtain r where r: "r \<in> set rs" "kept L a r" "x = Re r" "Im r = 0"
    by auto
  then have "r = complex_of_real x" using real_complex by simp
  then have "near x r" by (simp add: near_self)
  with assms(2) have "is_hole L a r"
    unfolding is_hole_iff by (intro bexI [of _ "(x, y)"]) simp_all
  with r(2) show False by (simp add: kept_def)
qed

lemma asymptotes_not_hole:
  assumes "(x, y) \<in> set (find_holes L a)"
  shows "x \<notin> set (find_vertical_asymptotes L a)"
proof (cases "valid a \<and> (\<exists>d rs vs. denominator a = Some d \<and> sp_solve L d = Inr rs
    \<and> roots_loop L a rs = Inr vs)")
  case True
  then obtain d rs vs where "valid a" "denominator a = Some d" "sp_solve L d = Inr rs"
    and vs: "roots_loop L a rs = Inr vs" by auto
  then have "find_vertical_asymptotes L a = sort vs"
    by (simp add: find_vertical_asymptotes_def)
  with kept_roots_not_hole [OF vs assms] show ?thesis by simp
next
  case False
  then have "find_vertical_asymptotes L a = []"
    by (auto simp: find_vertical_asymptotes_def bind_exn_def split: option.splits sum.splits)
  then show ?thesis by simp
qed

lemma intercepts_not_hole:
  assumes "(x, y) \<in> set (find_holes L a)"
  shows "x \<notin> set (find_x_intercepts L a)"
proof (cases "valid a \<and> (\<exists>n rs vs. numerator a = Some n \<and> sp_solve L n = Inr rs
    \<and> roots_loop L a rs = Inr vs)")
  case True
  then obtain n rs vs where "valid a" "numerator a = Some n" "sp_solve L n = Inr rs"
    and vs: "roots_loop L a rs = Inr vs" by auto
  then have "find_x_intercepts L a = sort vs"
    by (simp add: find_x_intercepts_def)
  with kept_roots_not_hole [OF vs assms] show ?thesis by simp
next
  case False
  then have "find_x_intercepts L a = []"
    by (auto simp: find_x_intercepts_def bind_exn_def split: option.splits sum.splits)
  then show ?thesis by simp
qed


end
